theory Spec2Isabelle
  imports Main "HOL-Library.Log_Nat" "HOL-Library.Sublist"
begin

section \<open>Values shared by the components\<close>

text \<open>
  A value thrown in JavaScript is either an \<open>Error\<close> object, of which the code only
  reads the message, or some other value (\<open>err instanceof Error\<close> is false).
  A promise that settles is a sum: \<open>Inl\<close> the rejection, \<open>Inr\<close> the value.
\<close>

datatype js_exn = Error string | NonError

text \<open>
  \<open>types.ts\<close>: the interface \<open>UploadedImage\<close>. The field \<open>base64\<close> is filled with
  \<open>dataUrl.split(',')[1]\<close>, which is \<open>undefined\<close> when the URL has no comma.
\<close>

record UploadedImage =
  base64 :: "string option"
  mimeType :: string
  dataUrl :: string

text \<open>\<open>String.prototype.split\<close> with a one-character separator, and an array read
  by index, \<open>undefined\<close> out of range.\<close>

fun split_sep :: "char \<Rightarrow> string \<Rightarrow> string list" where
  "split_sep c [] = [[]]"
| "split_sep c (x # xs) =
     (if x = c then [] # split_sep c xs
      else (case split_sep c xs of [] \<Rightarrow> [[x]] | y # ys \<Rightarrow> (x # y) # ys))"

definition index :: "'a list \<Rightarrow> nat \<Rightarrow> 'a option" where
  "index xs i = (if i < length xs then Some (xs ! i) else None)"

text \<open>JavaScript truthiness of a value that is a string, \<open>null\<close> or \<open>undefined\<close>.\<close>

definition truthy :: "string option \<Rightarrow> bool" where
  "truthy v = (case v of None \<Rightarrow> False | Some t \<Rightarrow> t \<noteq> [])"

section \<open>JavaScript numbers\<close>

text \<open>
  A JavaScript number is an IEEE 754 double. The compositor only divides, multiplies and
  adds numbers that are never negative, so a number is here a non-negative rational that a
  double can hold, \<open>+Infinity\<close> or \<open>NaN\<close>. Every arithmetic result is rounded to the nearest
  double, ties to the even significand: \<open>fl\<close>, with 53 bits of significand, subnormals
  below \<open>2^-1022\<close> and overflow to \<open>+Infinity\<close> when the rounded value reaches
  \<open>2^1024\<close>, that is when its binary exponent is 1024 or more.
\<close>

datatype jsnum = Fin rat | PosInf | NaN

definition pow2 :: "int \<Rightarrow> rat" where
  "pow2 e = (if 0 \<le> e then 2 ^ nat e else 1 / 2 ^ nat (- e))"

text \<open>The binary exponent of a positive rational: \<open>pow2 (expo x) \<le> x < pow2 (expo x + 1)\<close>.\<close>

definition expo :: "rat \<Rightarrow> int" where
  "expo x = (if 1 \<le> x then bitlen \<lfloor>x\<rfloor> - 1 else - bitlen (\<lceil>1 / x\<rceil> - 1))"

text \<open>Rounding to the nearest integer, a tie to the even one.\<close>

definition rne :: "rat \<Rightarrow> int" where
  "rne x = (let n = \<lfloor>x\<rfloor>; r = x - of_int n in
     if r < 1 / 2 then n else if 1 / 2 < r then n + 1 else if even n then n else n + 1)"

definition fl :: "rat \<Rightarrow> jsnum" where
  "fl x = (if x = 0 then Fin 0 else
     let u = pow2 (max (expo x - 52) (- 1074)); y = of_int (rne (x / u)) * u
     in if 1024 \<le> expo y then PosInf else Fin y)"

fun js_divide :: "jsnum \<Rightarrow> jsnum \<Rightarrow> jsnum" where
  "js_divide (Fin a) (Fin b) = (if b = 0 then (if a = 0 then NaN else PosInf) else fl (a / b))"
| "js_divide (Fin a) PosInf = Fin 0"
| "js_divide PosInf (Fin b) = PosInf"
| "js_divide PosInf PosInf = NaN"
| "js_divide NaN y = NaN"
| "js_divide x NaN = NaN"

fun js_times :: "jsnum \<Rightarrow> jsnum \<Rightarrow> jsnum" where
  "js_times (Fin a) (Fin b) = fl (a * b)"
| "js_times (Fin a) PosInf = (if a = 0 then NaN else PosInf)"
| "js_times PosInf (Fin b) = (if b = 0 then NaN else PosInf)"
| "js_times PosInf PosInf = PosInf"
| "js_times NaN y = NaN"
| "js_times x NaN = NaN"

fun js_plus :: "jsnum \<Rightarrow> jsnum \<Rightarrow> jsnum" where
  "js_plus (Fin a) (Fin b) = fl (a + b)"
| "js_plus NaN y = NaN"
| "js_plus x NaN = NaN"
| "js_plus PosInf y = PosInf"
| "js_plus x PosInf = PosInf"

text \<open>
  \<open>canvas.width\<close> and \<open>canvas.height\<close> are \<open>unsigned long\<close> attributes: a number
  assigned to them is converted as Web IDL says, \<open>NaN\<close> and the infinities to 0, any
  other number truncated towards zero and reduced modulo \<open>2^32\<close>.
\<close>

definition to_unsigned_long :: "jsnum \<Rightarrow> nat" where
  "to_unsigned_long v =
     (case v of
        Fin x \<Rightarrow> nat ((if 0 \<le> x then \<lfloor>x\<rfloor> else - \<lfloor>- x\<rfloor>) mod 2 ^ 32)
      | PosInf \<Rightarrow> 0
      | NaN \<Rightarrow> 0)"

section \<open>The compositor: \<open>combineImages\<close>\<close>

text \<open>An image element after its \<open>load\<close> event: the pixel size it decoded to.\<close>

record image_el =
  width :: nat
  height :: nat

datatype source_image = LeftSource | RightSource

datatype draw_op =
  FillRect string jsnum jsnum jsnum jsnum
| DrawImage source_image jsnum jsnum jsnum jsnum

text \<open>
  The canvas: its bitmap size, the fill style of its 2D context and the drawing calls made
  on it since the bitmap was last reset. Assigning the width or the height resets the
  bitmap and the context, whose default fill style is \<open>#000000\<close>.
\<close>

record canvas =
  cv_width :: nat
  cv_height :: nat
  fillStyle :: string
  drawn :: "draw_op list"

definition createCanvas :: canvas where
  "createCanvas = \<lparr>cv_width = 300, cv_height = 150, fillStyle = ''#000000'', drawn = []\<rparr>"

definition set_width :: "jsnum \<Rightarrow> canvas \<Rightarrow> canvas" where
  "set_width v c = c\<lparr>cv_width := to_unsigned_long v, fillStyle := ''#000000'', drawn := []\<rparr>"

definition set_height :: "jsnum \<Rightarrow> canvas \<Rightarrow> canvas" where
  "set_height v c = c\<lparr>cv_height := to_unsigned_long v, fillStyle := ''#000000'', drawn := []\<rparr>"

definition set_fillStyle :: "string \<Rightarrow> canvas \<Rightarrow> canvas" where
  "set_fillStyle v c = c\<lparr>fillStyle := v\<rparr>"

definition fillRect :: "jsnum \<Rightarrow> jsnum \<Rightarrow> jsnum \<Rightarrow> jsnum \<Rightarrow> canvas \<Rightarrow> canvas" where
  "fillRect x y w h c = c\<lparr>drawn := drawn c @ [FillRect (fillStyle c) x y w h]\<rparr>"

definition drawImage ::
  "source_image \<Rightarrow> jsnum \<Rightarrow> jsnum \<Rightarrow> jsnum \<Rightarrow> jsnum \<Rightarrow> canvas \<Rightarrow> canvas" where
  "drawImage i x y w h c = c\<lparr>drawn := drawn c @ [DrawImage i x y w h]\<rparr>"

text \<open>Lines 32 to 37 of \<open>combineImages\<close>: the two scaled widths.\<close>

definition targetHeight :: jsnum where
  "targetHeight = Fin 720"

definition scaledWidth :: "image_el \<Rightarrow> jsnum" where
  "scaledWidth i =
     (let aspectRatio = js_divide (Fin (of_nat (width i))) (Fin (of_nat (height i)))
      in js_times targetHeight aspectRatio)"

text \<open>Lines 39 to 46: the canvas is sized, filled and drawn on.\<close>

definition composite :: "image_el \<Rightarrow> image_el \<Rightarrow> canvas" where
  "composite leftImage rightImage =
     (let leftScaledWidth = scaledWidth leftImage;
          rightScaledWidth = scaledWidth rightImage;
          c1 = set_width (js_plus leftScaledWidth rightScaledWidth) createCanvas;
          c2 = set_height targetHeight c1;
          c3 = set_fillStyle ''#000000'' c2;
          c4 = fillRect (Fin 0) (Fin 0) (Fin (of_nat (cv_width c3))) (Fin (of_nat (cv_height c3))) c3;
          c5 = drawImage LeftSource (Fin 0) (Fin 0) leftScaledWidth targetHeight c4
      in drawImage RightSource leftScaledWidth (Fin 0) rightScaledWidth targetHeight c5)"

text \<open>
  What the browser does for \<open>combineImages\<close>: \<open>decode\<close> gives the pixel size of the
  image behind a source URL, or nothing when the image cannot be loaded (its \<open>error\<close>
  event fires); \<open>right_first\<close> says which image settles first; \<open>context2d\<close> whether
  \<open>getContext('2d')\<close> gives a context; \<open>toDataURL\<close> is the encoder, applied to the
  canvas, the type asked for and the quality.
\<close>

record browser =
  decode :: "string \<Rightarrow> image_el option"
  right_first :: bool
  context2d :: bool
  toDataURL :: "canvas \<Rightarrow> string \<Rightarrow> jsnum \<Rightarrow> string"

datatype load_event = LeftLoad | LeftError | RightLoad | RightError

definition image_events :: "browser \<Rightarrow> string \<Rightarrow> string \<Rightarrow> load_event list" where
  "image_events b leftImgSrc rightImgSrc =
     (let l = (case decode b leftImgSrc of None \<Rightarrow> LeftError | Some _ \<Rightarrow> LeftLoad);
          r = (case decode b rightImgSrc of None \<Rightarrow> RightError | Some _ \<Rightarrow> RightLoad)
      in if right_first b then [r, l] else [l, r])"

text \<open>The quality argument \<open>0.9\<close> is the double nearest to nine tenths.\<close>

definition jpeg_quality :: jsnum where
  "jpeg_quality = fl (9 / 10)"

definition onBothLoaded ::
  "browser \<Rightarrow> image_el \<Rightarrow> image_el \<Rightarrow> bool \<Rightarrow> bool \<Rightarrow> (js_exn + UploadedImage) option" where
  "onBothLoaded b leftImage rightImage leftLoaded rightLoaded =
     (if leftLoaded \<and> rightLoaded then
        (if \<not> context2d b then Some (Inl (Error ''Could not get canvas context''))
         else
           let url = toDataURL b (composite leftImage rightImage) ''image/jpeg'' jpeg_quality
           in Some (Inr \<lparr>base64 = index (split_sep CHR '','' url) 1,
                         mimeType = ''image/jpeg'', dataUrl = url\<rparr>))
      else None)"

text \<open>
  The four event handlers, run on the events in the order the browser delivers them,
  until the promise settles; \<open>None\<close> is a promise still pending after the last event.
\<close>

fun deliver ::
  "browser \<Rightarrow> image_el \<Rightarrow> image_el \<Rightarrow> bool \<Rightarrow> bool \<Rightarrow> load_event list
     \<Rightarrow> (js_exn + UploadedImage) option" where
  "deliver b li ri ll rl [] = None"
| "deliver b li ri ll rl (LeftLoad # es) =
     (case onBothLoaded b li ri True rl of Some r \<Rightarrow> Some r | None \<Rightarrow> deliver b li ri True rl es)"
| "deliver b li ri ll rl (RightLoad # es) =
     (case onBothLoaded b li ri ll True of Some r \<Rightarrow> Some r | None \<Rightarrow> deliver b li ri ll True es)"
| "deliver b li ri ll rl (LeftError # es) = Some (Inl (Error ''Failed to load left image.''))"
| "deliver b li ri ll rl (RightError # es) = Some (Inl (Error ''Failed to load right image.''))"

definition unloaded :: image_el where
  "unloaded = \<lparr>width = 0, height = 0\<rparr>"

definition combineImages :: "browser \<Rightarrow> string \<Rightarrow> string \<Rightarrow> (js_exn + UploadedImage) option" where
  "combineImages b leftImgSrc rightImgSrc =
     deliver b
       (case decode b leftImgSrc of None \<Rightarrow> unloaded | Some i \<Rightarrow> i)
       (case decode b rightImgSrc of None \<Rightarrow> unloaded | Some i \<Rightarrow> i)
       False False (image_events b leftImgSrc rightImgSrc)"

text \<open>
  The width the specification states for the composite, over exact rationals: the canonical
  height times the aspect ratio of the left image, plus the same for the right image.
  It is compared below with the width that the code gives the canvas.
\<close>

definition aspect :: "image_el \<Rightarrow> rat" where
  "aspect i = of_nat (width i) / of_nat (height i)"

definition spec_width :: "image_el \<Rightarrow> image_el \<Rightarrow> rat" where
  "spec_width l r = 720 * aspect l + 720 * aspect r"


section \<open>The generation client: \<open>geminiService\<close>\<close>

text \<open>
  The operation object of the video service, as far as the code reads it: the flag
  \<open>done\<close> and, through optional chaining, \<open>response?.generatedVideos?.[0]?.video?.uri\<close>.
\<close>

record video_t =
  uri :: "string option"

record generated_video =
  video :: "video_t option"

record videos_response =
  generatedVideos :: "generated_video list option"

record operation =
  op_done :: bool
  response :: "videos_response option"

record videos_request =
  model :: string
  prompt :: string
  imageBytes :: "string option"
  image_mimeType :: string
  numberOfVideos :: nat

record http_response =
  ok :: bool
  statusText :: string
  blob :: "js_exn + string"

text \<open>
  The service and the network, as the code calls them. A status query may answer
  differently each time it is asked, so \<open>getVideosOperation\<close> also takes the number of
  queries made before. \<open>API_KEY\<close> is \<open>process.env.API_KEY\<close> as the template string
  prints it.
\<close>

record service =
  generateVideos :: "videos_request \<Rightarrow> js_exn + operation"
  getVideosOperation :: "nat \<Rightarrow> operation \<Rightarrow> js_exn + operation"
  fetch :: "string \<Rightarrow> js_exn + http_response"
  createObjectURL :: "string \<Rightarrow> string"
  API_KEY :: string

text \<open>What the code asks of the world, in the order it asks.\<close>

datatype call =
  CombineImages string string
| GenerateVideos videos_request
| Wait nat
| GetVideosOperation operation
| Fetch string
| ReadBlob
| CreateObjectURL string

text \<open>
  \<open>pollOperation\<close>: the loop tests \<open>result.done\<close>; while it is false the loop waits
  10000 ms and then asks the service for the operation again. The loop has no bound: a
  job that is never done gives \<open>None\<close>. \<open>k\<close> counts the queries made, \<open>calls\<close> collects what
  was asked of the world.
\<close>

partial_function (option) pollOperation ::
  "service \<Rightarrow> nat \<Rightarrow> call list \<Rightarrow> operation \<Rightarrow> (call list \<times> (js_exn + operation)) option" where
  "pollOperation sv k calls result =
     (if \<not> op_done result then
        (case getVideosOperation sv k result of
           Inl e \<Rightarrow> Some (calls @ [Wait 10000, GetVideosOperation result], Inl e)
         | Inr r \<Rightarrow> pollOperation sv (Suc k) (calls @ [Wait 10000, GetVideosOperation result]) r)
      else Some (calls, Inr result))"

definition downloadLink :: "operation \<Rightarrow> string option" where
  "downloadLink finalOperation =
     (case response finalOperation of
        None \<Rightarrow> None
      | Some r \<Rightarrow>
          (case generatedVideos r of
             None \<Rightarrow> None
           | Some gs \<Rightarrow>
               (case index gs 0 of
                  None \<Rightarrow> None
                | Some g \<Rightarrow> (case video g of None \<Rightarrow> None | Some v \<Rightarrow> uri v))))"

definition the_prompt :: string where
  "the_prompt = ''From the provided image containing two people side-by-side, create a short video. In the video, the person on the right walks through the person on the left, moves behind them, and then hugs their waist from behind. The person on the left must remain completely still and stationary throughout the entire video. Do not duplicate or clone either person. Ensure the animation is smooth and realistic.''"

definition request_of :: "UploadedImage \<Rightarrow> videos_request" where
  "request_of combinedImage =
     \<lparr>model = ''veo-2.0-generate-001'', prompt = the_prompt,
      imageBytes = base64 combinedImage, image_mimeType = mimeType combinedImage,
      numberOfVideos = 1\<rparr>"

text \<open>
  Lines 34 to 46: what follows the polling, inside the \<open>try\<close>. A link that is
  \<open>undefined\<close> or the empty string is no link (\<open>!downloadLink\<close>).
\<close>

definition download :: "service \<Rightarrow> call list \<Rightarrow> string \<Rightarrow> call list \<times> (js_exn + string)" where
  "download sv calls link =
     (let url = link @ ''&key='' @ API_KEY sv
      in (case fetch sv url of
            Inl e \<Rightarrow> (calls @ [Fetch url], Inl e)
          | Inr videoResponse \<Rightarrow>
              if \<not> ok videoResponse then
                (calls @ [Fetch url],
                 Inl (Error (''Failed to download video: '' @ statusText videoResponse)))
              else
                (case blob videoResponse of
                   Inl e \<Rightarrow> (calls @ [Fetch url, ReadBlob], Inl e)
                 | Inr videoBlob \<Rightarrow>
                     (calls @ [Fetch url, ReadBlob, CreateObjectURL videoBlob],
                      Inr (createObjectURL sv videoBlob)))))"

definition retrieve :: "service \<Rightarrow> call list \<Rightarrow> operation \<Rightarrow> call list \<times> (js_exn + string)" where
  "retrieve sv calls finalOperation =
     (case downloadLink finalOperation of
        None \<Rightarrow> (calls, Inl (Error ''Video generation failed: no download link provided.''))
      | Some link \<Rightarrow>
          if \<not> truthy (Some link) then
            (calls, Inl (Error ''Video generation failed: no download link provided.''))
          else download sv calls link)"

text \<open>The body of the \<open>try\<close> of \<open>generateHuggingVideo\<close>, and the \<open>catch\<close> around it.\<close>

definition try_generate ::
  "service \<Rightarrow> UploadedImage \<Rightarrow> (call list \<times> (js_exn + string)) option" where
  "try_generate sv combinedImage =
     (case generateVideos sv (request_of combinedImage) of
        Inl e \<Rightarrow> Some ([GenerateVideos (request_of combinedImage)], Inl e)
      | Inr operation \<Rightarrow>
          (case pollOperation sv 0 [GenerateVideos (request_of combinedImage)] operation of
             None \<Rightarrow> None
           | Some (calls, Inl e) \<Rightarrow> Some (calls, Inl e)
           | Some (calls, Inr finalOperation) \<Rightarrow> Some (retrieve sv calls finalOperation)))"

definition rethrow :: "js_exn \<Rightarrow> js_exn" where
  "rethrow e =
     (case e of
        Error m \<Rightarrow> Error (''An error occurred with the AI service: '' @ m)
      | NonError \<Rightarrow> Error ''An unknown error occurred during video generation.'')"

definition generateHuggingVideo ::
  "service \<Rightarrow> UploadedImage \<Rightarrow> (call list \<times> (js_exn + string)) option" where
  "generateHuggingVideo sv combinedImage =
     (case try_generate sv combinedImage of
        None \<Rightarrow> None
      | Some (calls, Inl e) \<Rightarrow> Some (calls, Inl (rethrow e))
      | Some (calls, Inr videoUrl) \<Rightarrow> Some (calls, Inr videoUrl))"

section \<open>The workflow: \<open>App\<close>\<close>

definition loadingMessages :: "string list" where
  "loadingMessages =
     [''Warming up the digital actors...'',
      ''Choreographing the embrace...'',
      ''Setting the scene for the animation...'',
      ''Rendering the initial frames...'',
      ''This can take a few minutes, please be patient.'',
      ''AI is composing the video sequence...'',
      ''Almost there, adding the final touches...'']"

text \<open>
  The state of \<open>App\<close>: its six state variables and the ref \<open>intervalRef\<close>, together
  with the interval timers of the window (identifier and delay of each running timer) and
  the identifier the next \<open>setInterval\<close> returns.
\<close>

record app_state =
  leftImage :: "UploadedImage option"
  rightImage :: "UploadedImage option"
  generatedVideoUrl :: "string option"
  isLoading :: bool
  loadingMessage :: string
  error :: "string option"
  intervalRef :: "nat option"
  timers :: "(nat \<times> nat) list"
  next_timer :: nat

definition initial_state :: app_state where
  "initial_state =
     \<lparr>leftImage = None, rightImage = None, generatedVideoUrl = None, isLoading = False,
      loadingMessage = loadingMessages ! 0, error = None, intervalRef = None,
      timers = [], next_timer = 1\<rparr>"

definition setInterval :: "nat \<Rightarrow> app_state \<Rightarrow> nat \<times> app_state" where
  "setInterval delay s =
     (next_timer s, s\<lparr>timers := timers s @ [(next_timer s, delay)], next_timer := Suc (next_timer s)\<rparr>)"

definition clearInterval :: "nat \<Rightarrow> app_state \<Rightarrow> app_state" where
  "clearInterval i s = s\<lparr>timers := filter (\<lambda>t. fst t \<noteq> i) (timers s)\<rparr>"

text \<open>\<open>Array.prototype.indexOf\<close>: the first position of the value, or -1.\<close>

fun indexOf :: "'a list \<Rightarrow> 'a \<Rightarrow> int" where
  "indexOf [] v = - 1"
| "indexOf (x # xs) v =
     (if x = v then 0 else (let i = indexOf xs v in if i < 0 then - 1 else i + 1))"

text \<open>
  The updater passed to \<open>setLoadingMessage\<close> (lines 79 to 83). \<open>currentIndex + 1\<close> is
  never negative, so the remainder \<open>%\<close> is \<open>mod\<close>.
\<close>

definition next_message :: "string \<Rightarrow> string" where
  "next_message prev =
     (let currentIndex = indexOf loadingMessages prev;
          nextIndex = (currentIndex + 1) mod int (length loadingMessages)
      in loadingMessages ! nat nextIndex)"

text \<open>The callback of the interval timer \<open>i\<close>; a timer that was cleared never fires.\<close>

definition interval_fired :: "nat \<Rightarrow> app_state \<Rightarrow> app_state" where
  "interval_fired i s =
     (if i \<in> fst ` set (timers s) then s\<lparr>loadingMessage := next_message (loadingMessage s)\<rparr>
      else s)"

text \<open>
  The effect that depends on \<open>isLoading\<close> (lines 76 to 97): its body and the cleanup it
  returns. \<open>if (intervalRef.current)\<close> is false for \<open>null\<close> and for the number 0.
\<close>

definition ref_set :: "nat option \<Rightarrow> bool" where
  "ref_set r = (case r of None \<Rightarrow> False | Some i \<Rightarrow> i \<noteq> 0)"

definition effect_body :: "app_state \<Rightarrow> app_state" where
  "effect_body s =
     (if isLoading s then
        (let (i, s') = setInterval 3000 s in s'\<lparr>intervalRef := Some i\<rparr>)
      else
        (case intervalRef s of
           None \<Rightarrow> s
         | Some i \<Rightarrow> if ref_set (Some i) then (clearInterval i s)\<lparr>intervalRef := None\<rparr> else s))"

definition effect_cleanup :: "app_state \<Rightarrow> app_state" where
  "effect_cleanup s =
     (case intervalRef s of
        None \<Rightarrow> s
      | Some i \<Rightarrow> if ref_set (Some i) then clearInterval i s else s)"

text \<open>
  \<open>setIsLoading\<close> followed by the render it causes: when the value changes, React runs
  the cleanup of the previous effect and then the effect again. Unmounting \<open>App\<close> runs the
  cleanup alone.
\<close>

definition setIsLoading :: "bool \<Rightarrow> app_state \<Rightarrow> app_state" where
  "setIsLoading v s =
     (if isLoading s = v then s else effect_body (effect_cleanup (s\<lparr>isLoading := v\<rparr>)))"

definition unmount :: "app_state \<Rightarrow> app_state" where
  "unmount s = effect_cleanup s"

text \<open>\<open>handleGenerateVideo\<close>: the statements before the \<open>try\<close> (lines 105 to 107), the
  \<open>catch\<close>, the \<open>finally\<close>, and the whole handler run until its promise settles.\<close>

definition begin_attempt :: "app_state \<Rightarrow> app_state" where
  "begin_attempt s = (setIsLoading True s)\<lparr>error := None, generatedVideoUrl := None\<rparr>"

definition errorMessage :: "js_exn \<Rightarrow> string" where
  "errorMessage err = (case err of Error m \<Rightarrow> m | NonError \<Rightarrow> ''An unexpected error occurred.'')"

definition catch_err :: "js_exn \<Rightarrow> app_state \<Rightarrow> app_state" where
  "catch_err err s = s\<lparr>error := Some (errorMessage err)\<rparr>"

definition finally_block :: "app_state \<Rightarrow> app_state" where
  "finally_block s = setIsLoading False s"

definition handleGenerateVideo ::
  "browser \<Rightarrow> service \<Rightarrow> app_state \<Rightarrow> (call list \<times> app_state) option" where
  "handleGenerateVideo b sv s =
     (case (leftImage s, rightImage s) of
        (Some l, Some r) \<Rightarrow>
          (let s1 = begin_attempt s; c = CombineImages (dataUrl l) (dataUrl r)
           in (case combineImages b (dataUrl l) (dataUrl r) of
                 None \<Rightarrow> None
               | Some (Inl err) \<Rightarrow> Some ([c], finally_block (catch_err err s1))
               | Some (Inr combinedImage) \<Rightarrow>
                   (case generateHuggingVideo sv combinedImage of
                      None \<Rightarrow> None
                    | Some (calls, Inl err) \<Rightarrow> Some (c # calls, finally_block (catch_err err s1))
                    | Some (calls, Inr videoUrl) \<Rightarrow>
                        Some (c # calls, finally_block (s1\<lparr>generatedVideoUrl := Some videoUrl\<rparr>)))))
      | _ \<Rightarrow> Some ([], s\<lparr>error := Some ''Please upload both images before generating.''\<rparr>))"

text \<open>
  The view (lines 134 to 160): the uploaders and the button are rendered only while there
  is no video and nothing is loading, and the button is disabled while an image is missing
  or something is loading. A click reaches the handler only through an enabled button.
\<close>

definition button_rendered :: "app_state \<Rightarrow> bool" where
  "button_rendered s = (\<not> truthy (generatedVideoUrl s) \<and> \<not> isLoading s)"

definition button_disabled :: "app_state \<Rightarrow> bool" where
  "button_disabled s = (leftImage s = None \<or> rightImage s = None \<or> isLoading s)"

definition click_generate ::
  "browser \<Rightarrow> service \<Rightarrow> app_state \<Rightarrow> (call list \<times> app_state) option" where
  "click_generate b sv s =
     (if button_rendered s \<and> \<not> button_disabled s then handleGenerateVideo b sv s
      else Some ([], s))"

definition dismiss_error :: "app_state \<Rightarrow> app_state" where
  "dismiss_error s = s\<lparr>error := None\<rparr>"

definition create_another :: "app_state \<Rightarrow> app_state" where
  "create_another s =
     s\<lparr>generatedVideoUrl := None, leftImage := None, rightImage := None, error := None\<rparr>"

section \<open>The upload slot: \<open>ImageUploader\<close>\<close>

record file_t =
  file_type :: string

record uploader_state =
  preview :: "string option"
  slot_error :: "string option"

text \<open>
  A handler of the uploader changes the state of the slot and calls \<open>onImageUpload\<close>; the
  calls are collected in order. \<open>handleFileChange\<close> runs up to \<open>readAsDataURL\<close> and
  gives the file it started to read, if any.
\<close>

definition handleFileChange ::
  "file_t option \<Rightarrow> uploader_state
     \<Rightarrow> uploader_state \<times> UploadedImage option list \<times> file_t option" where
  "handleFileChange f u =
     (case f of
        None \<Rightarrow> (u\<lparr>preview := None\<rparr>, [None], None)
      | Some file \<Rightarrow>
          if \<not> prefix ''image/'' (file_type file) then
            (u\<lparr>slot_error := Some ''Please upload a valid image file (PNG, JPG, etc.).'',
               preview := None\<rparr>, [None], None)
          else (u\<lparr>slot_error := None\<rparr>, [], Some file))"

text \<open>
  \<open>reader.onloadend\<close>: \<open>reader.result\<close> is the data URL, or \<open>null\<close> after a failed read,
  and then \<open>dataUrl.split\<close> throws a \<open>TypeError\<close> before anything is changed.
\<close>

definition onloadend ::
  "file_t \<Rightarrow> string option \<Rightarrow> uploader_state \<Rightarrow> js_exn + uploader_state \<times> UploadedImage option list" where
  "onloadend file result u =
     (case result of
        None \<Rightarrow> Inl (Error ''TypeError'')
      | Some url \<Rightarrow>
          Inr (u\<lparr>preview := Some url\<rparr>,
               [Some \<lparr>base64 = index (split_sep CHR '','' url) 1,
                      mimeType = file_type file, dataUrl = url\<rparr>]))"

definition onerror :: "uploader_state \<Rightarrow> uploader_state \<times> UploadedImage option list" where
  "onerror u = (u\<lparr>slot_error := Some ''Failed to read the file.''\<rparr>, [None])"

text \<open>
  The file reader fires \<open>load\<close> and then \<open>loadend\<close> when the read succeeds, \<open>error\<close>
  and then \<open>loadend\<close> when it fails. An exception thrown by an event handler is
  reported by the browser and changes nothing.
\<close>

datatype read_outcome = ReadOk string | ReadFailed

definition read_events ::
  "file_t \<Rightarrow> read_outcome \<Rightarrow> uploader_state \<Rightarrow> uploader_state \<times> UploadedImage option list" where
  "read_events file outcome u =
     (case outcome of
        ReadOk url \<Rightarrow>
          (case onloadend file (Some url) u of Inl e \<Rightarrow> (u, []) | Inr r \<Rightarrow> r)
      | ReadFailed \<Rightarrow>
          (let (u1, calls1) = onerror u
           in (case onloadend file None u1 of
                 Inl e \<Rightarrow> (u1, calls1)
               | Inr (u2, calls2) \<Rightarrow> (u2, calls1 @ calls2))))"

text \<open>A change of the file input, followed to the end of the read it starts.\<close>

definition upload ::
  "file_t option \<Rightarrow> read_outcome \<Rightarrow> uploader_state
     \<Rightarrow> uploader_state \<times> UploadedImage option list" where
  "upload f outcome u =
     (case handleFileChange f u of
        (u1, calls1, None) \<Rightarrow> (u1, calls1)
      | (u1, calls1, Some file) \<Rightarrow>
          (let (u2, calls2) = read_events file outcome u1 in (u2, calls1 @ calls2)))"

text \<open>
  \<open>App\<close> passes \<open>setLeftImage\<close> and \<open>setRightImage\<close> as \<open>onImageUpload\<close> of its two
  uploaders; the calls an uploader made are applied in order.
\<close>

definition setLeftImage :: "UploadedImage option \<Rightarrow> app_state \<Rightarrow> app_state" where
  "setLeftImage v s = s\<lparr>leftImage := v\<rparr>"

definition setRightImage :: "UploadedImage option \<Rightarrow> app_state \<Rightarrow> app_state" where
  "setRightImage v s = s\<lparr>rightImage := v\<rparr>"

datatype slot = LeftSlot | RightSlot

definition onImageUpload :: "slot \<Rightarrow> UploadedImage option \<Rightarrow> app_state \<Rightarrow> app_state" where
  "onImageUpload sl v s = (case sl of LeftSlot \<Rightarrow> setLeftImage v s | RightSlot \<Rightarrow> setRightImage v s)"

definition slot_value :: "slot \<Rightarrow> app_state \<Rightarrow> UploadedImage option" where
  "slot_value sl s = (case sl of LeftSlot \<Rightarrow> leftImage s | RightSlot \<Rightarrow> rightImage s)"

definition deliver_uploads :: "slot \<Rightarrow> UploadedImage option list \<Rightarrow> app_state \<Rightarrow> app_state" where
  "deliver_uploads sl vs s = fold (onImageUpload sl) vs s"

section \<open>Reading the record of calls\<close>

text \<open>The waits among the calls, in order, each with its length in milliseconds.\<close>

fun waits :: "call list \<Rightarrow> nat list" where
  "waits [] = []"
| "waits (Wait d # cs) = d # waits cs"
| "waits (c # cs) = waits cs"

text \<open>The status queries among the calls, and whether a download was asked for.\<close>

fun queries :: "call list \<Rightarrow> operation list" where
  "queries [] = []"
| "queries (GetVideosOperation r # cs) = r # queries cs"
| "queries (c # cs) = queries cs"

fun is_fetch :: "call \<Rightarrow> bool" where
  "is_fetch (Fetch u) = True"
| "is_fetch c = False"

section \<open>The ticker\<close>

text \<open>
  The ticker is in order when the window runs the one interval timer that
  \<open>intervalRef\<close> names, with a delay of 3000 ms, exactly while \<open>isLoading\<close> holds, and
  runs none otherwise; the message shown is one of the seven. Timer identifiers are
  positive, as the browser gives them.
\<close>

definition ticker_ok :: "app_state \<Rightarrow> bool" where
  "ticker_ok s =
     (0 < next_timer s \<and> loadingMessage s \<in> set loadingMessages \<and>
      (case intervalRef s of
         None \<Rightarrow> \<not> isLoading s \<and> timers s = []
       | Some i \<Rightarrow> isLoading s \<and> 0 < i \<and> i < next_timer s \<and> timers s = [(i, 3000)]))"

section \<open>Concrete inputs\<close>

text \<open>An uploaded picture, a browser that decodes every source to 100 by 100 pixels, and
  the state of the application once both slots hold the picture.\<close>

definition a_picture :: UploadedImage where
  "a_picture = \<lparr>base64 = Some ''QUJD'', mimeType = ''image/png'',
                 dataUrl = ''data:image/png;base64,QUJD''\<rparr>"

definition a_browser :: browser where
  "a_browser =
     \<lparr>decode = (\<lambda>src. Some \<lparr>width = 100, height = 100\<rparr>), right_first = False,
      context2d = True, toDataURL = (\<lambda>c t q. ''data:image/jpeg;base64,REVG'')\<rparr>"

definition both_uploaded :: app_state where
  "both_uploaded = initial_state\<lparr>leftImage := Some a_picture, rightImage := Some a_picture\<rparr>"

text \<open>
  A service whose job is done from the \<open>n\<close>-th look at it on (the operation that
  \<open>generateVideos\<close> returns is look 0, the answer to query \<open>k\<close> is look \<open>k + 1\<close>), and
  whose finished job carries the link given, if any.
\<close>

definition job :: "nat \<Rightarrow> string option \<Rightarrow> nat \<Rightarrow> operation" where
  "job n link k =
     \<lparr>op_done = (n \<le> k),
      response = (if n \<le> k then Some \<lparr>generatedVideos = Some [\<lparr>video = Some \<lparr>uri = link\<rparr>\<rparr>]\<rparr> else None)\<rparr>"

definition a_service :: "nat \<Rightarrow> string option \<Rightarrow> service" where
  "a_service n link =
     \<lparr>generateVideos = (\<lambda>q. Inr (job n link 0)),
      getVideosOperation = (\<lambda>k r. Inr (job n link (Suc k))),
      fetch = (\<lambda>u. Inr \<lparr>ok = True, statusText = ''OK'', blob = Inr ''video bytes''\<rparr>),
      createObjectURL = (\<lambda>bytes. ''blob:video''),
      API_KEY = ''key''\<rparr>"

section \<open>Exact arithmetic on whole numbers\<close>






lemma to_unsigned_long_of_nat: "n < 2 ^ 32 \<Longrightarrow> to_unsigned_long (Fin (of_nat n)) = n"
proof -
  assume "n < 2 ^ 32"
  then have "int n < 2 ^ 32" by (metis of_nat_less_iff of_nat_numeral of_nat_power)
  then show ?thesis by (simp add: to_unsigned_long_def)
qed

lemma cv_height_composite: "cv_height (composite l r) = 720"
proof -
  have "to_unsigned_long (Fin 720) = 720"
    using to_unsigned_long_of_nat [of 720] by simp
  then show ?thesis
    by (simp add: composite_def Let_def set_width_def set_height_def set_fillStyle_def
        fillRect_def drawImage_def targetHeight_def)
qed

lemma cv_width_composite:
  "cv_width (composite l r) = to_unsigned_long (js_plus (scaledWidth l) (scaledWidth r))"
  by (simp add: composite_def Let_def set_width_def set_height_def set_fillStyle_def
      fillRect_def drawImage_def)

section \<open>The error of one rounding\<close>














section \<open>The size of the composite\<close>








text \<open>
  Rounding alone can cost a pixel: \<open>720 * (7 / 5)\<close> is 1008, but as doubles the product
  is just below it, so two images of 7 by 5 pixels give a canvas 2015 pixels wide where
  the exact width is 2016.
\<close>

lemma composite_width_rounded_down:
  "cv_width (composite \<lparr>width = 7, height = 5\<rparr> \<lparr>width = 7, height = 5\<rparr>) = 2015 \<and>
   spec_width \<lparr>width = 7, height = 5\<rparr> \<lparr>width = 7, height = 5\<rparr> = 2016"
proof -
  have "to_unsigned_long (js_plus (scaledWidth \<lparr>width = 7, height = 5\<rparr>)
          (scaledWidth \<lparr>width = 7, height = 5\<rparr>)) = 2015"
    by code_simp
  then show ?thesis by (simp add: cv_width_composite spec_width_def aspect_def)
qed

section \<open>What the compositor draws\<close>

lemma drawn_composite:
  "drawn (composite l r) =
     [FillRect ''#000000'' (Fin 0) (Fin 0) (Fin (of_nat (cv_width (composite l r)))) (Fin 720),
      DrawImage LeftSource (Fin 0) (Fin 0) (scaledWidth l) (Fin 720),
      DrawImage RightSource (scaledWidth l) (Fin 0) (scaledWidth r) (Fin 720)]"
proof -
  have "to_unsigned_long (Fin 720) = 720"
    using to_unsigned_long_of_nat [of 720] by simp
  then show ?thesis
    by (simp add: composite_def Let_def set_width_def set_height_def set_fillStyle_def
        fillRect_def drawImage_def targetHeight_def)
qed

lemma jpeg_quality_value: "jpeg_quality = Fin (8106479329266893 / 9007199254740992)"
  by code_simp

lemma combineImages_both_loaded:
  assumes "decode b ls = Some l" "decode b rs = Some r" "context2d b"
  shows "combineImages b ls rs =
    Some (Inr \<lparr>base64 = index (split_sep CHR '','' (toDataURL b (composite l r) ''image/jpeg'' jpeg_quality)) 1,
               mimeType = ''image/jpeg'',
               dataUrl = toDataURL b (composite l r) ''image/jpeg'' jpeg_quality\<rparr>)"
  using assms by (simp add: combineImages_def image_events_def onBothLoaded_def Let_def)

text \<open>
  Claim C7. On the canvas the compositor makes three drawing calls: it fills the whole
  canvas, from the corner \<open>(0, 0)\<close> over the canvas width and height, in \<open>#000000\<close>,
  which is opaque black; it draws the left image at \<open>x = 0\<close>, scaled to its scaled width
  and to the height 720; it draws the right image at \<open>x\<close> equal to the left image's
  scaled width, so that the right image starts where the left one ends. When both
  images load and a 2D context is there, the result of \<open>combineImages\<close> is the canvas
  encoded as \<open>image/jpeg\<close> at the quality \<open>0.9\<close> (the double nearest to nine tenths).
\<close>

theorem composite_drawing:
  "drawn (composite l r) =
     [FillRect ''#000000'' (Fin 0) (Fin 0) (Fin (of_nat (cv_width (composite l r)))) (Fin (of_nat (cv_height (composite l r)))),
      DrawImage LeftSource (Fin 0) (Fin 0) (scaledWidth l) (Fin 720),
      DrawImage RightSource (scaledWidth l) (Fin 0) (scaledWidth r) (Fin 720)] \<and>
   jpeg_quality = Fin (8106479329266893 / 9007199254740992) \<and>
   (decode b ls = Some l \<and> decode b rs = Some r \<and> context2d b \<longrightarrow>
      combineImages b ls rs =
        Some (Inr \<lparr>base64 = index (split_sep CHR '','' (toDataURL b (composite l r) ''image/jpeg'' jpeg_quality)) 1,
                   mimeType = ''image/jpeg'',
                   dataUrl = toDataURL b (composite l r) ''image/jpeg'' jpeg_quality\<rparr>))"
  by (simp add: drawn_composite cv_height_composite jpeg_quality_value [symmetric]
      combineImages_both_loaded)

theorem composite_drawing_witness:
  "decode a_browser ''left'' = Some \<lparr>width = 100, height = 100\<rparr> \<and>
   decode a_browser ''right'' = Some \<lparr>width = 100, height = 100\<rparr> \<and> context2d a_browser \<and>
   combineImages a_browser ''left'' ''right'' =
     Some (Inr \<lparr>base64 = Some ''REVG'', mimeType = ''image/jpeg'',
                dataUrl = ''data:image/jpeg;base64,REVG''\<rparr>)"
proof -
  have h: "decode a_browser ''left'' = Some \<lparr>width = 100, height = 100\<rparr> \<and>
      decode a_browser ''right'' = Some \<lparr>width = 100, height = 100\<rparr> \<and> context2d a_browser"
    by (simp add: a_browser_def)
  have e: "toDataURL a_browser c t q = ''data:image/jpeg;base64,REVG''" for c t q
    by (simp add: a_browser_def)
  from composite_drawing [of "\<lparr>width = 100, height = 100\<rparr>" "\<lparr>width = 100, height = 100\<rparr>"
      a_browser "''left''" "''right''"] h
  show ?thesis by (simp add: e index_def)
qed

section \<open>Polling\<close>

lemma waits_append: "waits (xs @ ys) = waits xs @ waits ys"
  by (induction xs rule: waits.induct) simp_all

lemma queries_append: "queries (xs @ ys) = queries xs @ queries ys"
  by (induction xs rule: queries.induct) simp_all






section \<open>The steps of the handler\<close>

lemma pollOperation_no_fetch:
  assumes major: "pollOperation sv k cs r = Some y"
  shows "\<exists>cs'. fst y = cs @ cs' \<and> \<not> (\<exists>c\<in>set cs'. is_fetch c)"
proof (rule pollOperation.raw_induct
    [where P = "\<lambda>sv k cs r y. \<exists>cs'. fst y = cs @ cs' \<and> \<not> (\<exists>c\<in>set cs'. is_fetch c)",
      OF _ major])
  fix poll sv k cs r y
  assume IH: "\<And>sv k cs r y. poll sv k cs r = Some y \<Longrightarrow>
      \<exists>cs'. fst y = cs @ cs' \<and> \<not> (\<exists>c\<in>set cs'. is_fetch c)"
    and eq: "(if \<not> op_done r
      then case getVideosOperation sv k r of
           Inl e \<Rightarrow> Some (cs @ [Wait 10000, GetVideosOperation r], Inl e)
         | Inr r' \<Rightarrow> poll sv (Suc k) (cs @ [Wait 10000, GetVideosOperation r]) r'
      else Some (cs, Inr r)) = Some y"
  show "\<exists>cs'. fst y = cs @ cs' \<and> \<not> (\<exists>c\<in>set cs'. is_fetch c)"
  proof (cases "op_done r")
    case True
    with eq show ?thesis by auto
  next
    case False
    show ?thesis
    proof (cases "getVideosOperation sv k r")
      case (Inl e)
      with False eq show ?thesis by auto
    next
      case (Inr r')
      with False eq have "poll sv (Suc k) (cs @ [Wait 10000, GetVideosOperation r]) r' = Some y"
        by simp
      from IH [OF this] obtain cs' where
        "fst y = (cs @ [Wait 10000, GetVideosOperation r]) @ cs'" "\<not> (\<exists>c\<in>set cs'. is_fetch c)"
        by blast
      then have "fst y = cs @ ([Wait 10000, GetVideosOperation r] @ cs') \<and>
          \<not> (\<exists>c\<in>set ([Wait 10000, GetVideosOperation r] @ cs'). is_fetch c)"
        by simp
      then show ?thesis by blast
    qed
  qed
qed

lemma isLoading_setIsLoading: "isLoading (setIsLoading v s) = v"
  by (auto simp: setIsLoading_def effect_body_def effect_cleanup_def setInterval_def
      clearInterval_def split: option.splits)

lemma setIsLoading_keeps:
  "error (setIsLoading v s) = error s"
  "generatedVideoUrl (setIsLoading v s) = generatedVideoUrl s"
  "leftImage (setIsLoading v s) = leftImage s"
  "rightImage (setIsLoading v s) = rightImage s"
  "loadingMessage (setIsLoading v s) = loadingMessage s"
  by (auto simp: setIsLoading_def effect_body_def effect_cleanup_def setInterval_def
      clearInterval_def split: option.splits)

lemma begin_attempt_fields:
  "isLoading (begin_attempt s)"
  "error (begin_attempt s) = None"
  "generatedVideoUrl (begin_attempt s) = None"
  "leftImage (begin_attempt s) = leftImage s"
  "rightImage (begin_attempt s) = rightImage s"
  by (simp_all add: begin_attempt_def isLoading_setIsLoading setIsLoading_keeps)

lemma finally_block_fields:
  "\<not> isLoading (finally_block s)"
  "error (finally_block s) = error s"
  "generatedVideoUrl (finally_block s) = generatedVideoUrl s"
  by (simp_all add: finally_block_def isLoading_setIsLoading setIsLoading_keeps)

lemma failed_attempt_fields:
  "\<not> isLoading (finally_block (catch_err err (begin_attempt s)))"
  "error (finally_block (catch_err err (begin_attempt s))) = Some (errorMessage err)"
  "generatedVideoUrl (finally_block (catch_err err (begin_attempt s))) = None"
  by (simp_all add: finally_block_fields catch_err_def begin_attempt_fields)

lemma ready_attempt_fields:
  "\<not> isLoading (finally_block ((begin_attempt s)\<lparr>generatedVideoUrl := Some v\<rparr>))"
  "error (finally_block ((begin_attempt s)\<lparr>generatedVideoUrl := Some v\<rparr>)) = None"
  "generatedVideoUrl (finally_block ((begin_attempt s)\<lparr>generatedVideoUrl := Some v\<rparr>)) = Some v"
  by (simp_all add: finally_block_fields begin_attempt_fields)

text \<open>The handler with both inputs present, by the way its two steps settle.\<close>

lemma handler_combine_rejected:
  assumes "leftImage s = Some l" "rightImage s = Some r"
    and "combineImages b (dataUrl l) (dataUrl r) = Some (Inl err)"
  shows "handleGenerateVideo b sv s =
    Some ([CombineImages (dataUrl l) (dataUrl r)], finally_block (catch_err err (begin_attempt s)))"
  using assms by (simp add: handleGenerateVideo_def Let_def)

lemma handler_generate_rejected:
  assumes "leftImage s = Some l" "rightImage s = Some r"
    and "combineImages b (dataUrl l) (dataUrl r) = Some (Inr c)"
    and "generateHuggingVideo sv c = Some (cs, Inl err)"
  shows "handleGenerateVideo b sv s =
    Some (CombineImages (dataUrl l) (dataUrl r) # cs, finally_block (catch_err err (begin_attempt s)))"
  using assms by (simp add: handleGenerateVideo_def Let_def)

lemma handler_resolved:
  assumes "leftImage s = Some l" "rightImage s = Some r"
    and "combineImages b (dataUrl l) (dataUrl r) = Some (Inr c)"
    and "generateHuggingVideo sv c = Some (cs, Inr v)"
  shows "handleGenerateVideo b sv s =
    Some (CombineImages (dataUrl l) (dataUrl r) # cs,
          finally_block ((begin_attempt s)\<lparr>generatedVideoUrl := Some v\<rparr>))"
  using assms by (simp add: handleGenerateVideo_def Let_def)

lemma handler_cases:
  assumes "leftImage s = Some l" "rightImage s = Some r"
    and "handleGenerateVideo b sv s = Some (calls, s')"
  obtains (combine_failed) err where "combineImages b (dataUrl l) (dataUrl r) = Some (Inl err)"
      "calls = [CombineImages (dataUrl l) (dataUrl r)]"
      "s' = finally_block (catch_err err (begin_attempt s))"
  | (generate_failed) c cs err where "combineImages b (dataUrl l) (dataUrl r) = Some (Inr c)"
      "generateHuggingVideo sv c = Some (cs, Inl err)"
      "calls = CombineImages (dataUrl l) (dataUrl r) # cs"
      "s' = finally_block (catch_err err (begin_attempt s))"
  | (succeeded) c cs v where "combineImages b (dataUrl l) (dataUrl r) = Some (Inr c)"
      "generateHuggingVideo sv c = Some (cs, Inr v)"
      "calls = CombineImages (dataUrl l) (dataUrl r) # cs"
      "s' = finally_block ((begin_attempt s)\<lparr>generatedVideoUrl := Some v\<rparr>)"
  using assms
  by (auto simp: handleGenerateVideo_def Let_def split: option.splits sum.splits prod.splits)


lemma combineImages_a_browser:
  "combineImages a_browser l r =
     Some (Inr \<lparr>base64 = Some ''REVG'', mimeType = ''image/jpeg'',
                dataUrl = ''data:image/jpeg;base64,REVG''\<rparr>)"
  by (simp add: combineImages_def a_browser_def image_events_def onBothLoaded_def index_def)

lemma retrieve_no_link:
  "\<not> truthy (downloadLink fin) \<Longrightarrow>
     retrieve sv cs fin = (cs, Inl (Error ''Video generation failed: no download link provided.''))"
  by (cases "downloadLink fin") (simp_all add: retrieve_def)

lemma generate_no_link:
  assumes "generateVideos sv (request_of c) = Inr op"
    and "pollOperation sv 0 [GenerateVideos (request_of c)] op = Some (cs, Inr fin)"
    and "\<not> truthy (downloadLink fin)"
  shows "generateHuggingVideo sv c =
    Some (cs, Inl (Error ''An error occurred with the AI service: Video generation failed: no download link provided.''))"
  using assms
  by (simp add: generateHuggingVideo_def try_generate_def retrieve_no_link rethrow_def)

lemma poll_done_at_once: "op_done r \<Longrightarrow> pollOperation sv k cs r = Some (cs, Inr r)"
  by (subst pollOperation.simps) simp

text \<open>A run in which the job is done at once and carries no link.\<close>

lemma run_without_link:
  assumes "leftImage s = Some a_picture" "rightImage s = Some a_picture"
  shows "handleGenerateVideo a_browser (a_service 0 None) s =
    Some ([CombineImages (dataUrl a_picture) (dataUrl a_picture),
           GenerateVideos (request_of \<lparr>base64 = Some ''REVG'', mimeType = ''image/jpeg'',
             dataUrl = ''data:image/jpeg;base64,REVG''\<rparr>)],
          finally_block (catch_err
            (Error ''An error occurred with the AI service: Video generation failed: no download link provided.'')
            (begin_attempt s)))"
proof -
  let ?c = "\<lparr>base64 = Some ''REVG'', mimeType = ''image/jpeg'', dataUrl = ''data:image/jpeg;base64,REVG''\<rparr>"
  have 3: "combineImages a_browser (dataUrl a_picture) (dataUrl a_picture) = Some (Inr ?c)"
    by (rule combineImages_a_browser)
  have 4: "generateVideos (a_service 0 None) (request_of ?c) = Inr (job 0 None 0)"
    by (simp add: a_service_def)
  have 5: "pollOperation (a_service 0 None) 0 [GenerateVideos (request_of ?c)] (job 0 None 0)
      = Some ([GenerateVideos (request_of ?c)], Inr (job 0 None 0))"
    by (rule poll_done_at_once) (simp add: job_def)
  have 6: "\<not> truthy (downloadLink (job 0 None 0))"
    by (simp add: truthy_def downloadLink_def job_def index_def)
  show ?thesis
    by (rule handler_generate_rejected [OF assms 3 generate_no_link [OF 4 5 6]])
qed

section \<open>Submitting\<close>

text \<open>
  Claim C4. When the handler runs while the left or the right image is absent, it makes
  no call at all, neither to the compositor nor to the generation service, and leaves the
  state as it was except for the error, which becomes the request to upload both images.
\<close>

theorem missing_input:
  assumes "leftImage s = None \<or> rightImage s = None"
  shows "handleGenerateVideo b sv s =
    Some ([], s\<lparr>error := Some ''Please upload both images before generating.''\<rparr>)"
  using assms by (auto simp: handleGenerateVideo_def split: option.splits)

theorem missing_input_witness:
  "(leftImage initial_state = None \<or> rightImage initial_state = None) \<and>
   handleGenerateVideo a_browser (a_service 0 None) initial_state =
     Some ([], initial_state\<lparr>error := Some ''Please upload both images before generating.''\<rparr>)"
  using missing_input [of initial_state a_browser "a_service 0 None"]
  by (simp add: initial_state_def)

text \<open>
  Claim C3. While \<open>isLoading\<close> holds, that is from the start of an attempt until its
  \<open>finally\<close>, a click on the button starts nothing and changes nothing: the button is
  not rendered and is disabled. The guard is in the view; the handler itself does not
  test \<open>isLoading\<close>.
\<close>

theorem submit_rejected_while_loading:
  assumes "isLoading s"
  shows "click_generate b sv s = Some ([], s)"
  using assms by (simp add: click_generate_def button_rendered_def)

theorem submit_rejected_while_loading_witness:
  "isLoading (begin_attempt both_uploaded) \<and>
   click_generate a_browser (a_service 1 None) (begin_attempt both_uploaded) =
     Some ([], begin_attempt both_uploaded)"
  using submit_rejected_while_loading [of "begin_attempt both_uploaded" a_browser "a_service 1 None"]
  by (simp add: begin_attempt_fields)

text \<open>
  Called directly in a state that is loading, the handler would begin another attempt:
  it calls the compositor again.
\<close>

lemma handler_not_guarded:
  "isLoading (begin_attempt both_uploaded) \<and>
   (\<exists>calls s'. handleGenerateVideo a_browser (a_service 0 None) (begin_attempt both_uploaded)
        = Some (CombineImages (dataUrl a_picture) (dataUrl a_picture) # calls, s'))"
proof -
  have "leftImage (begin_attempt both_uploaded) = Some a_picture"
    "rightImage (begin_attempt both_uploaded) = Some a_picture"
    by (simp_all add: begin_attempt_fields both_uploaded_def)
  from run_without_link [OF this] show ?thesis by (simp add: begin_attempt_fields)
qed

section \<open>The outcome of an attempt\<close>

text \<open>
  Claim C5. When the job completes and its response has no link (none, or an empty one),
  \<open>generateHuggingVideo\<close> rejects without asking for any download, and the handler ends
  with the loading flag cleared, no video, and the error message that wraps
  \<open>Video generation failed: no download link provided.\<close>
\<close>

theorem no_result_locator:
  assumes "leftImage s = Some l" "rightImage s = Some r"
    and "combineImages b (dataUrl l) (dataUrl r) = Some (Inr c)"
    and "generateVideos sv (request_of c) = Inr op"
    and "pollOperation sv 0 [GenerateVideos (request_of c)] op = Some (cs, Inr fin)"
    and "\<not> truthy (downloadLink fin)"
  shows "generateHuggingVideo sv c =
      Some (cs, Inl (Error ''An error occurred with the AI service: Video generation failed: no download link provided.'')) \<and>
    \<not> (\<exists>x\<in>set cs. is_fetch x) \<and>
    (\<exists>s'. handleGenerateVideo b sv s = Some (CombineImages (dataUrl l) (dataUrl r) # cs, s') \<and>
       \<not> isLoading s' \<and>
       error s' = Some ''An error occurred with the AI service: Video generation failed: no download link provided.'' \<and>
       generatedVideoUrl s' = None)"
proof (intro conjI)
  let ?e = "Error ''An error occurred with the AI service: Video generation failed: no download link provided.''"
  show g: "generateHuggingVideo sv c = Some (cs, Inl ?e)"
    by (rule generate_no_link [OF assms(4,5,6)])
  from pollOperation_no_fetch [OF assms(5)]
  show "\<not> (\<exists>x\<in>set cs. is_fetch x)" by auto
  have "handleGenerateVideo b sv s =
      Some (CombineImages (dataUrl l) (dataUrl r) # cs, finally_block (catch_err ?e (begin_attempt s)))"
    by (rule handler_generate_rejected [OF assms(1,2,3) g])
  then show "\<exists>s'. handleGenerateVideo b sv s = Some (CombineImages (dataUrl l) (dataUrl r) # cs, s') \<and>
       \<not> isLoading s' \<and>
       error s' = Some ''An error occurred with the AI service: Video generation failed: no download link provided.'' \<and>
       generatedVideoUrl s' = None"
    by (simp add: failed_attempt_fields errorMessage_def)
qed

theorem no_result_locator_witness:
  "\<exists>s'. handleGenerateVideo a_browser (a_service 0 None) both_uploaded =
       Some ([CombineImages (dataUrl a_picture) (dataUrl a_picture),
              GenerateVideos (request_of \<lparr>base64 = Some ''REVG'', mimeType = ''image/jpeg'',
                dataUrl = ''data:image/jpeg;base64,REVG''\<rparr>)], s') \<and>
     \<not> isLoading s' \<and>
     error s' = Some ''An error occurred with the AI service: Video generation failed: no download link provided.'' \<and>
     generatedVideoUrl s' = None"
proof -
  let ?c = "\<lparr>base64 = Some ''REVG'', mimeType = ''image/jpeg'', dataUrl = ''data:image/jpeg;base64,REVG''\<rparr>"
  have 1: "leftImage both_uploaded = Some a_picture" "rightImage both_uploaded = Some a_picture"
    by (simp_all add: both_uploaded_def)
  have 3: "combineImages a_browser (dataUrl a_picture) (dataUrl a_picture) = Some (Inr ?c)"
    by (rule combineImages_a_browser)
  have 4: "generateVideos (a_service 0 None) (request_of ?c) = Inr (job 0 None 0)"
    by (simp add: a_service_def)
  have 5: "pollOperation (a_service 0 None) 0 [GenerateVideos (request_of ?c)] (job 0 None 0)
      = Some ([GenerateVideos (request_of ?c)], Inr (job 0 None 0))"
    by (rule poll_done_at_once) (simp add: job_def)
  have 6: "\<not> truthy (downloadLink (job 0 None 0))"
    by (simp add: truthy_def downloadLink_def job_def index_def)
  from no_result_locator [OF 1 3 4 5 6] show ?thesis by blast
qed

text \<open>
  Claim C9. An attempt that begins clears the error and the video before it calls the
  compositor. When it has settled, an error in the state means there is no video, and a
  video in the state means that both steps resolved, that it is the video just generated,
  and that there is no error.
\<close>

theorem failed_attempt_shows_no_video:
  assumes "leftImage s = Some l" "rightImage s = Some r"
    and "handleGenerateVideo b sv s = Some (calls, s')"
  shows "error (begin_attempt s) = None \<and> generatedVideoUrl (begin_attempt s) = None \<and>
    (error s' \<noteq> None \<longrightarrow> generatedVideoUrl s' = None) \<and>
    (generatedVideoUrl s' \<noteq> None \<longrightarrow>
       error s' = None \<and>
       (\<exists>c cs v. combineImages b (dataUrl l) (dataUrl r) = Some (Inr c) \<and>
          generateHuggingVideo sv c = Some (cs, Inr v) \<and> generatedVideoUrl s' = Some v))"
  using assms(1,2,3)
proof (cases rule: handler_cases)
  case (combine_failed err)
  then show ?thesis by (simp add: failed_attempt_fields begin_attempt_fields)
next
  case (generate_failed c cs err)
  then show ?thesis by (simp add: failed_attempt_fields begin_attempt_fields)
next
  case (succeeded c cs v)
  then show ?thesis by (simp add: ready_attempt_fields begin_attempt_fields)
qed

theorem failed_attempt_shows_no_video_witness:
  "generatedVideoUrl (both_uploaded\<lparr>generatedVideoUrl := Some ''blob:old''\<rparr>) = Some ''blob:old'' \<and>
   (\<exists>calls s'. handleGenerateVideo a_browser (a_service 0 None)
        (both_uploaded\<lparr>generatedVideoUrl := Some ''blob:old''\<rparr>) = Some (calls, s') \<and>
      error s' \<noteq> None \<and> generatedVideoUrl s' = None)"
proof -
  let ?s = "both_uploaded\<lparr>generatedVideoUrl := Some ''blob:old''\<rparr>"
  have l: "leftImage ?s = Some a_picture" and r: "rightImage ?s = Some a_picture"
    by (simp_all add: both_uploaded_def)
  note run = run_without_link [OF l r]
  have "error (finally_block (catch_err
            (Error ''An error occurred with the AI service: Video generation failed: no download link provided.'')
            (begin_attempt ?s))) \<noteq> None"
    by (simp add: failed_attempt_fields)
  with failed_attempt_shows_no_video [OF l r run] run show ?thesis by simp
qed

text \<open>The generation fails to settle only when the polling goes on for ever.\<close>

lemma generate_never_settles:
  "generateHuggingVideo sv c = None \<longleftrightarrow>
     (\<exists>op. generateVideos sv (request_of c) = Inr op \<and>
        pollOperation sv 0 [GenerateVideos (request_of c)] op = None)"
  by (auto simp: generateHuggingVideo_def try_generate_def
      split: option.splits sum.splits prod.splits)



section \<open>The progress messages\<close>

lemma below_seven: "k < 7 \<Longrightarrow> k = 0 \<or> k = 1 \<or> k = 2 \<or> k = 3 \<or> k = 4 \<or> k = 5 \<or> k = (6::nat)"
  by arith

lemma next_message_at:
  "next_message (loadingMessages ! 0) = loadingMessages ! 1"
  "next_message (loadingMessages ! 1) = loadingMessages ! 2"
  "next_message (loadingMessages ! 2) = loadingMessages ! 3"
  "next_message (loadingMessages ! 3) = loadingMessages ! 4"
  "next_message (loadingMessages ! 4) = loadingMessages ! 5"
  "next_message (loadingMessages ! 5) = loadingMessages ! 6"
  "next_message (loadingMessages ! 6) = loadingMessages ! 0"
  by code_simp+

lemma next_message_cycle:
  assumes "k < 7"
  shows "next_message (loadingMessages ! k) = loadingMessages ! ((k + 1) mod 7)"
proof -
  from below_seven [OF assms] show ?thesis
  proof (elim disjE)
    assume "k = 1"
    then show ?thesis using next_message_at(2) by (simp add: numeral_2_eq_2)
  qed (simp_all add: next_message_at)
qed

lemma length_loadingMessages: "length loadingMessages = 7"
  by (simp add: loadingMessages_def)

lemma message_position:
  assumes "m \<in> set loadingMessages"
  shows "\<exists>k<7. m = loadingMessages ! k"
  using assms by (metis in_set_conv_nth length_loadingMessages)

lemma message_at_position: "k < 7 \<Longrightarrow> loadingMessages ! k \<in> set loadingMessages"
  by (simp add: length_loadingMessages)

lemma next_message_known:
  assumes "m \<in> set loadingMessages"
  shows "next_message m \<in> set loadingMessages"
proof -
  from message_position [OF assms] obtain k where k: "k < 7" "m = loadingMessages ! k" by blast
  have "(k + 1) mod 7 < 7" by simp
  then show ?thesis unfolding k(2) next_message_cycle [OF k(1)] by (rule message_at_position)
qed

lemma ticker_start:
  assumes "ticker_ok s" "\<not> isLoading s"
  shows "timers (setIsLoading True s) = [(next_timer s, 3000)]"
    and "intervalRef (setIsLoading True s) = Some (next_timer s)"
  using assms
  by (auto simp: ticker_ok_def setIsLoading_def effect_body_def effect_cleanup_def
      setInterval_def clearInterval_def ref_set_def split: option.splits)

lemma ticker_stop:
  assumes "ticker_ok s"
  shows "timers (setIsLoading False s) = []" and "intervalRef (setIsLoading False s) = None"
  using assms
  by (auto simp: ticker_ok_def setIsLoading_def effect_body_def effect_cleanup_def
      setInterval_def clearInterval_def ref_set_def split: option.splits)

lemma ticker_ok_setIsLoading:
  assumes "ticker_ok s"
  shows "ticker_ok (setIsLoading v s)"
  using assms
  by (auto simp: ticker_ok_def setIsLoading_def effect_body_def effect_cleanup_def
      setInterval_def clearInterval_def ref_set_def split: option.splits)

lemma ticker_unmount:
  assumes "ticker_ok s"
  shows "timers (unmount s) = []"
  using assms
  by (auto simp: ticker_ok_def unmount_def effect_cleanup_def clearInterval_def ref_set_def
      split: option.splits)

lemma no_timer_no_tick: "timers s = [] \<Longrightarrow> interval_fired i s = s"
  by (simp add: interval_fired_def)

lemma ticker_ok_interval_fired: "ticker_ok s \<Longrightarrow> ticker_ok (interval_fired i s)"
  by (auto simp: ticker_ok_def interval_fired_def next_message_known split: option.splits)

lemma ticker_ok_initial: "ticker_ok initial_state"
  by (simp add: ticker_ok_def initial_state_def message_at_position)

lemma ticker_ok_other_fields:
  "ticker_ok (s\<lparr>error := e\<rparr>) = ticker_ok s"
  "ticker_ok (s\<lparr>generatedVideoUrl := v\<rparr>) = ticker_ok s"
  "ticker_ok (s\<lparr>leftImage := l\<rparr>) = ticker_ok s"
  "ticker_ok (s\<lparr>rightImage := r\<rparr>) = ticker_ok s"
  by (simp_all add: ticker_ok_def split: option.splits)

text \<open>The other actions of the view leave the ticker as it is.\<close>

lemma ticker_ok_view_actions:
  "ticker_ok (dismiss_error s) = ticker_ok s"
  "ticker_ok (create_another s) = ticker_ok s"
  "ticker_ok (onImageUpload sl v s) = ticker_ok s"
  by (simp_all add: ticker_ok_def dismiss_error_def create_another_def onImageUpload_def
      setLeftImage_def setRightImage_def split: option.splits slot.splits)

lemma ticker_ok_begin_attempt: "ticker_ok s \<Longrightarrow> ticker_ok (begin_attempt s)"
  by (simp add: begin_attempt_def ticker_ok_other_fields ticker_ok_setIsLoading)

lemma ticker_after_attempt:
  assumes "ticker_ok s" "leftImage s = Some l" "rightImage s = Some r"
    and "handleGenerateVideo b sv s = Some (calls, s')"
  shows "timers s' = [] \<and> intervalRef s' = None \<and> ticker_ok s'"
  using assms(2,3,4)
proof (cases rule: handler_cases)
  case (combine_failed err)
  have "ticker_ok (catch_err err (begin_attempt s))"
    using assms(1) by (simp add: catch_err_def ticker_ok_other_fields ticker_ok_begin_attempt)
  then show ?thesis
    unfolding combine_failed(3) finally_block_def
    by (simp add: ticker_stop ticker_ok_setIsLoading)
next
  case (generate_failed c cs err)
  have "ticker_ok (catch_err err (begin_attempt s))"
    using assms(1) by (simp add: catch_err_def ticker_ok_other_fields ticker_ok_begin_attempt)
  then show ?thesis
    unfolding generate_failed(4) finally_block_def
    by (simp add: ticker_stop ticker_ok_setIsLoading)
next
  case (succeeded c cs v)
  have "ticker_ok ((begin_attempt s)\<lparr>generatedVideoUrl := Some v\<rparr>)"
    using assms(1) by (simp add: ticker_ok_other_fields ticker_ok_begin_attempt)
  then show ?thesis
    unfolding succeeded(4) finally_block_def
    by (simp add: ticker_stop ticker_ok_setIsLoading)
qed

text \<open>
  Claim C6. With the ticker in order: setting the loading flag starts one interval timer
  with a delay of 3000 ms, and while loading that one timer runs; each firing of it moves
  the message from its position \<open>k\<close> among the seven messages to position
  \<open>(k + 1) mod 7\<close>, so from the last to the first, and leaves the ticker in order with
  the timer running; clearing the loading flag, unmounting, and the end of every attempt
  leave no timer, after which no firing changes anything.
\<close>

theorem ticker_cycles_and_stops:
  assumes "ticker_ok s"
  shows "(\<not> isLoading s \<longrightarrow> timers (setIsLoading True s) = [(next_timer s, 3000)]) \<and>
    (isLoading s \<longrightarrow> (\<exists>i. timers s = [(i, 3000)])) \<and>
    (\<forall>i. isLoading s \<and> i \<in> fst ` set (timers s)
       \<longrightarrow> (\<exists>k<7. loadingMessage s = loadingMessages ! k \<and>
              loadingMessage (interval_fired i s) = loadingMessages ! ((k + 1) mod 7)) \<and>
           ticker_ok (interval_fired i s) \<and> timers (interval_fired i s) = timers s) \<and>
    timers (setIsLoading False s) = [] \<and>
    (\<forall>i. interval_fired i (setIsLoading False s) = setIsLoading False s) \<and>
    timers (unmount s) = [] \<and>
    (\<forall>b sv l r calls s'. leftImage s = Some l \<and> rightImage s = Some r \<and>
        handleGenerateVideo b sv s = Some (calls, s')
       \<longrightarrow> timers s' = [] \<and> (\<forall>i. interval_fired i s' = s'))"
proof (intro conjI allI impI)
  assume "\<not> isLoading s"
  with assms show "timers (setIsLoading True s) = [(next_timer s, 3000)]"
    by (rule ticker_start)
next
  assume "isLoading s"
  with assms show "\<exists>i. timers s = [(i, 3000)]"
    by (auto simp: ticker_ok_def split: option.splits)
next
  fix i
  assume h: "isLoading s \<and> i \<in> fst ` set (timers s)"
  from assms have "loadingMessage s \<in> set loadingMessages" by (simp add: ticker_ok_def)
  from message_position [OF this] obtain k where k: "k < 7" "loadingMessage s = loadingMessages ! k"
    by blast
  have "loadingMessage (interval_fired i s) = loadingMessages ! ((k + 1) mod 7)"
    using h k by (simp add: interval_fired_def next_message_cycle)
  with k show "\<exists>k<7. loadingMessage s = loadingMessages ! k \<and>
      loadingMessage (interval_fired i s) = loadingMessages ! ((k + 1) mod 7)"
    by blast
  show "ticker_ok (interval_fired i s)" using assms by (rule ticker_ok_interval_fired)
  show "timers (interval_fired i s) = timers s" by (simp add: interval_fired_def)
next
  show stop: "timers (setIsLoading False s) = []" using assms by (rule ticker_stop)
  fix i
  show "interval_fired i (setIsLoading False s) = setIsLoading False s"
    using stop by (rule no_timer_no_tick)
next
  show "timers (unmount s) = []" using assms by (rule ticker_unmount)
next
  fix b sv l r calls s'
  assume h: "leftImage s = Some l \<and> rightImage s = Some r \<and>
        handleGenerateVideo b sv s = Some (calls, s')"
  then have t: "timers s' = []" using ticker_after_attempt [OF assms, of l r b sv calls s'] by simp
  then show "timers s' = []" .
  fix i
  show "interval_fired i s' = s'" using t by (rule no_timer_no_tick)
qed

lemma begin_attempt_both_uploaded:
  "ticker_ok (begin_attempt both_uploaded)"
  "timers (begin_attempt both_uploaded) = [(1, 3000)]"
  "loadingMessage (begin_attempt both_uploaded) = loadingMessages ! 0"
proof -
  have "ticker_ok both_uploaded"
    using ticker_ok_initial by (simp add: both_uploaded_def ticker_ok_other_fields)
  then show "ticker_ok (begin_attempt both_uploaded)" by (rule ticker_ok_begin_attempt)
  show "timers (begin_attempt both_uploaded) = [(1, 3000)]"
    by (simp add: begin_attempt_def both_uploaded_def initial_state_def setIsLoading_def
      effect_body_def effect_cleanup_def setInterval_def)
  show "loadingMessage (begin_attempt both_uploaded) = loadingMessages ! 0"
    by (simp add: begin_attempt_def both_uploaded_def initial_state_def setIsLoading_keeps)
qed

theorem ticker_cycles_and_stops_witness:
  "ticker_ok (begin_attempt both_uploaded) \<and>
   isLoading (begin_attempt both_uploaded) \<and>
   timers (begin_attempt both_uploaded) = [(1, 3000)] \<and>
   ticker_ok (interval_fired 1 (begin_attempt both_uploaded)) \<and>
   timers (setIsLoading False (begin_attempt both_uploaded)) = []"
proof -
  let ?s = "begin_attempt both_uploaded"
  have "isLoading ?s \<and> 1 \<in> fst ` set (timers ?s)"
    by (simp add: begin_attempt_both_uploaded begin_attempt_fields)
  with ticker_cycles_and_stops [OF begin_attempt_both_uploaded(1)]
  have "ticker_ok (interval_fired 1 ?s)"
    and "timers (setIsLoading False ?s) = []"
    by blast+
  then show ?thesis
    by (simp add: begin_attempt_both_uploaded begin_attempt_fields)
qed

lemma first_tick:
  "loadingMessage (interval_fired 1 (begin_attempt both_uploaded)) = loadingMessages ! 1"
  by (simp add: interval_fired_def begin_attempt_both_uploaded next_message_at)

section \<open>Errors of an upload slot\<close>

lemma deliver_uploads_keeps:
  "error (deliver_uploads sl calls s) = error s"
  "isLoading (deliver_uploads sl calls s) = isLoading s"
  "generatedVideoUrl (deliver_uploads sl calls s) = generatedVideoUrl s"
  unfolding deliver_uploads_def
  by (induction calls arbitrary: s;
      simp add: onImageUpload_def setLeftImage_def setRightImage_def split: slot.splits)+

lemma deliver_none: "slot_value sl (deliver_uploads sl [None] s) = None"
  by (cases sl)
    (simp_all add: deliver_uploads_def onImageUpload_def slot_value_def setLeftImage_def
      setRightImage_def)

lemma upload_not_an_image:
  "\<not> prefix ''image/'' (file_type file) \<Longrightarrow>
     upload (Some file) outcome u =
       (u\<lparr>slot_error := Some ''Please upload a valid image file (PNG, JPG, etc.).'',
          preview := None\<rparr>, [None])"
  by (simp add: upload_def handleFileChange_def)

lemma upload_read_failed:
  "prefix ''image/'' (file_type file) \<Longrightarrow>
     upload (Some file) ReadFailed u = (u\<lparr>slot_error := Some ''Failed to read the file.''\<rparr>, [None])"
  by (simp add: upload_def handleFileChange_def read_events_def onerror_def onloadend_def)

text \<open>
  Claim C8. A file whose type does not start with \<open>image/\<close>, and a file whose read
  fails, leave the slot of the application empty and put a message in the error of the
  slot (for a file that is not an image, the request for a valid image file); the error,
  the loading flag and the video of the application stay as they were.
\<close>

theorem decode_errors_stay_in_slot:
  assumes "\<not> prefix ''image/'' (file_type f) \<or> outcome = ReadFailed"
  shows "(case upload (Some f) outcome u of
      (u', calls) \<Rightarrow>
        slot_value sl (deliver_uploads sl calls s) = None \<and>
        slot_error u' =
          Some (if \<not> prefix ''image/'' (file_type f)
                then ''Please upload a valid image file (PNG, JPG, etc.).''
                else ''Failed to read the file.'') \<and>
        error (deliver_uploads sl calls s) = error s \<and>
        isLoading (deliver_uploads sl calls s) = isLoading s \<and>
        generatedVideoUrl (deliver_uploads sl calls s) = generatedVideoUrl s)"
proof (cases "prefix ''image/'' (file_type f)")
  case False
  then show ?thesis
    by (simp add: upload_not_an_image deliver_none deliver_uploads_keeps)
next
  case True
  with assms have "outcome = ReadFailed" by simp
  with True show ?thesis
    by (simp add: upload_read_failed deliver_none deliver_uploads_keeps)
qed

theorem decode_errors_stay_in_slot_witness:
  "\<not> prefix ''image/'' (file_type \<lparr>file_type = ''text/plain''\<rparr>) \<and>
   slot_error (fst (upload (Some \<lparr>file_type = ''text/plain''\<rparr>) (ReadOk ''data:text/plain;base64,QQ'')
      \<lparr>preview = None, slot_error = None\<rparr>)) =
     Some ''Please upload a valid image file (PNG, JPG, etc.).'' \<and>
   leftImage (deliver_uploads LeftSlot
      (snd (upload (Some \<lparr>file_type = ''text/plain''\<rparr>) (ReadOk ''data:text/plain;base64,QQ'')
         \<lparr>preview = None, slot_error = None\<rparr>)) both_uploaded) = None \<and>
   error (deliver_uploads LeftSlot
      (snd (upload (Some \<lparr>file_type = ''text/plain''\<rparr>) (ReadOk ''data:text/plain;base64,QQ'')
         \<lparr>preview = None, slot_error = None\<rparr>)) both_uploaded) = None"
proof -
  have h: "\<not> prefix ''image/'' (file_type \<lparr>file_type = ''text/plain''\<rparr>)"
    by (simp add: prefix_def)
  have e: "error both_uploaded = None" by (simp add: both_uploaded_def initial_state_def)
  from decode_errors_stay_in_slot [where f = "\<lparr>file_type = ''text/plain''\<rparr>"
      and outcome = "ReadOk ''data:text/plain;base64,QQ''"
      and u = "\<lparr>preview = None, slot_error = None\<rparr>"
      and sl = LeftSlot and s = both_uploaded] h e
  show ?thesis by (simp add: slot_value_def split: prod.splits)
qed

end
